theory Spec2Isabelle
  imports Main
begin

section \<open>OctoNag configuration module (src/octonag/configuration.py)\<close>

text \<open>
  The module reads a YAML file and environment variables into the object
  \<open>Configuration\<close> and offers decorators around business functions. The module-level
  sets \<open>blocked\<close> and \<open>mapped\<close> and the calls made to the logging module are the state
  that the decorators read and write; \<open>Configuration\<close> is passed to every call, so a
  call always reads the configuration current at that call.
\<close>

subsection \<open>Values, errors and state\<close>

text \<open>Python values that travel as arguments, keyword arguments and results.\<close>

datatype pyval = PNone | PBool bool | PInt int | PStr string | PList "pyval list"

text \<open>Exceptions of the module; \<open>SystemExit\<close> is what \<open>sys.exit\<close> raises.\<close>

datatype py_error =
    KeyError string
  | AttributeError string
  | UnboundLocalError string
  | TypeError string
  | OSError
  | SystemExit int
  | OtherError string

datatype level = DEBUG | INFO | WARNING | ERROR | CRITICAL

type_synonym log_record = "level \<times> string"

text \<open>
  \<open>logged\<close> is the sequence of calls made to the logging module, with their level;
  whether a handler prints a record is decided by the level set in \<open>basicConfig\<close>.
\<close>

record state =
  blocked :: "string set"
  mapped :: "string set"
  logged :: "log_record list"

definition initial_state :: state where
  "initial_state = \<lparr>blocked = {}, mapped = {}, logged = []\<rparr>"

type_synonym args = "pyval list"
type_synonym kwargs = "string \<rightharpoonup> pyval"
type_synonym outcome = "(py_error + pyval) \<times> state"

text \<open>A function called as \<open>func(*args, **kwargs)\<close>.\<close>
type_synonym func = "args \<Rightarrow> kwargs \<Rightarrow> state \<Rightarrow> outcome"

text \<open>A function called as \<open>func(name, *args, **kwargs)\<close> with a string first.\<close>
type_synonym named_func = "string \<Rightarrow> args \<Rightarrow> kwargs \<Rightarrow> state \<Rightarrow> outcome"

subsection \<open>The configuration object\<close>

text \<open>An attribute that \<open>__init__\<close> assigns only on one branch.\<close>
datatype 'a attr = Unset | Attr 'a

text \<open>
  The value of \<open>configs[k] and {*configs[k]}\<close>: the falsy value itself (\<open>None\<close> or
  the empty list) or the set of the list's elements.
\<close>
datatype name_collection = NoneValue | EmptyList | NameSet "string set"

fun truthy :: "name_collection \<Rightarrow> bool" where
  "truthy NoneValue = False"
| "truthy EmptyList = False"
| "truthy (NameSet S) = (S \<noteq> {})"

fun contains :: "name_collection \<Rightarrow> string \<Rightarrow> bool" where
  "contains (NameSet S) n = (n \<in> S)"
| "contains EmptyList n = False"
| "contains NoneValue n = False"

record settings =
  github_token :: "string option"
  slack_token :: "string option"
  jira_user :: "string option attr"
  jira_pass :: "string option attr"
  map_users :: "(string \<times> string) list option"
  repositories :: "(string \<times> string list) list"
  whitelist :: name_collection
  blacklist :: name_collection
  use_jira :: bool
  ignore_assigned :: bool
  ignore_requested :: bool
  send_greeting :: bool
  debug_uid :: "string option"
  default_email_domain :: string

text \<open>
  The parsed YAML document, typed as section 6 of the specification types it. A field is
  \<open>None\<close> when the key is missing from the document; for the optional keys the inner
  \<open>None\<close> is the YAML null. A mapping is the list of its items, in document order.
\<close>

record yaml_config =
  cf_use_jira :: "bool option"
  cf_manually_resolve_users :: "(string \<times> string) list option option"
  cf_repositories :: "(string \<times> string list) list option"
  cf_whitelist :: "string list option option"
  cf_blacklist :: "string list option option"
  cf_ignore_no_assigned :: "bool option"
  cf_ignore_no_requested :: "bool option"
  cf_send_greeting :: "bool option"
  cf_default_email_domain :: "string option"

text \<open>
  What opening and parsing conf/config.yaml gives: \<open>open\<close> raises, the YAML loader
  raises, the document is not a mapping (an empty file, a scalar, a list), or it is one.
\<close>
datatype config_file = OpenFails | YamlFails string | NotAMapping | Document yaml_config

type_synonym env = "string \<rightharpoonup> string"

definition config_path :: string where
  "config_path = ''conf/config.yaml''"

text \<open>The value returned is \<open>None\<close> here when the document is not a mapping.\<close>
definition get_config_from_file ::
  "config_file \<Rightarrow> (py_error + yaml_config option) \<times> log_record list" where
  "get_config_from_file f =
     (let lg = [(DEBUG, ''Attempting to read configuration file '' @ config_path)] in
      case f of
        OpenFails \<Rightarrow> (Inl OSError, lg)
      | YamlFails e \<Rightarrow>
          (Inl (SystemExit 1),
           lg @ [(CRITICAL, e), (CRITICAL, ''Error reading configuration file '' @ config_path)])
      | NotAMapping \<Rightarrow> (Inr None, lg)
      | Document c \<Rightarrow> (Inr (Some c), lg))"

text \<open>\<open>configs[k]\<close>: a missing key raises.\<close>
definition getitem :: "string \<Rightarrow> 'a option \<Rightarrow> py_error + 'a" where
  "getitem k v = (case v of None \<Rightarrow> Inl (KeyError k) | Some x \<Rightarrow> Inr x)"

fun bind_err :: "py_error + 'a \<Rightarrow> ('a \<Rightarrow> py_error + 'b) \<Rightarrow> py_error + 'b" where
  "bind_err (Inl e) f = Inl e"
| "bind_err (Inr x) f = f x"

text \<open>\<open>xs and {*xs}\<close>.\<close>
fun normalize_list :: "string list option \<Rightarrow> name_collection" where
  "normalize_list None = NoneValue"
| "normalize_list (Some []) = EmptyList"
| "normalize_list (Some (x # xs)) = NameSet (set (x # xs))"

text \<open>The assignments of \<open>__init__\<close> after the token check, in source order.\<close>
definition read_fields ::
  "yaml_config \<Rightarrow> env \<Rightarrow> bool \<Rightarrow> string option attr \<Rightarrow> string option attr \<Rightarrow> py_error + settings" where
  "read_fields configs environ uj ju jp =
     bind_err (getitem ''manually_resolve_users'' (cf_manually_resolve_users configs)) (\<lambda>mu.
     bind_err (getitem ''repositories'' (cf_repositories configs)) (\<lambda>rs.
     bind_err (getitem ''whitelist'' (cf_whitelist configs)) (\<lambda>wl.
     bind_err (getitem ''blacklist'' (cf_blacklist configs)) (\<lambda>bl.
     bind_err (getitem ''ignore_no_assigned'' (cf_ignore_no_assigned configs)) (\<lambda>ia.
     bind_err (getitem ''ignore_no_requested'' (cf_ignore_no_requested configs)) (\<lambda>ir.
     bind_err (getitem ''send_greeting'' (cf_send_greeting configs)) (\<lambda>sg.
     bind_err (getitem ''default_email_domain'' (cf_default_email_domain configs)) (\<lambda>ded.
       Inr \<lparr>github_token = environ ''GITHUB_API_TOKEN'',
            slack_token = environ ''SLACK_API_TOKEN'',
            jira_user = ju,
            jira_pass = jp,
            map_users = mu,
            repositories = rs,
            whitelist = normalize_list wl,
            blacklist = normalize_list bl,
            use_jira = uj,
            ignore_assigned = ia,
            ignore_requested = ir,
            send_greeting = sg,
            debug_uid = environ ''DEBUG_UID'',
            default_email_domain = ded\<rparr>))))))))"

text \<open>\<open>_config.__init__\<close>: the result is the constructed object or the exception raised.\<close>
definition config_init :: "config_file \<Rightarrow> env \<Rightarrow> (py_error + settings) \<times> log_record list" where
  "config_init f environ =
     (case get_config_from_file f of
        (Inl e, lg) \<Rightarrow> (Inl e, lg)
      | (Inr None, lg) \<Rightarrow> (Inl (TypeError ''configs is not subscriptable''), lg)
      | (Inr (Some configs), lg) \<Rightarrow>
          (case getitem ''use_jira'' (cf_use_jira configs) of
             Inl e \<Rightarrow> (Inl e, lg)
           | Inr uj \<Rightarrow>
               (let lg1 = (if uj then lg @ [(DEBUG, ''Using JIRA credentials'')] else lg);
                    ju = (if uj then Attr (environ ''JIRA_USER'') else Unset);
                    jp = (if uj then Attr (environ ''JIRA_PASS'') else Unset)
                in if environ ''SLACK_API_TOKEN'' = None \<or> environ ''GITHUB_API_TOKEN'' = None
                   then (Inl (SystemExit 1),
                         lg1 @ [(CRITICAL, ''Slack or Github tokens not configured'')])
                   else (read_fields configs environ uj ju jp, lg1))))"

subsection \<open>The repository generator\<close>

text \<open>
  A generator object of \<open>repository_generator\<close>: the mapping it iterates, the owners the
  outer loop has not reached yet, the owner of the running inner loop and the
  repositories the inner loop has not reached yet.
\<close>

datatype generator =
  Generator "(string \<times> string list) list" "string list" string "string list"

text \<open>
  A fresh generator; no part of the body has run. \<open>for owner in repositories\<close> iterates the
  keys of the mapping.
\<close>
definition repository_generator ::
  "settings \<Rightarrow> (string \<times> string list) list option \<Rightarrow> generator" where
  "repository_generator cfg repos =
     (let repositories' = (case repos of None \<Rightarrow> repositories cfg | Some r \<Rightarrow> r)
      in Generator repositories' (map fst repositories') [] [])"

text \<open>The number of owners the outer loop has not reached.\<close>
fun owners_left :: "generator \<Rightarrow> nat" where
  "owners_left (Generator rp os ow inner) = length os"

text \<open>
  \<open>next(g)\<close>: runs the body to the next \<open>yield\<close>. \<open>None\<close> is StopIteration;
  \<open>repositories[owner]\<close> raises when the owner is not a key.
\<close>
function gen_next :: "generator \<Rightarrow> py_error + ((string \<times> string) option \<times> generator)" where
  "gen_next (Generator rp os ow (r # rs)) = Inr (Some (ow, r), Generator rp os ow rs)"
| "gen_next (Generator rp [] ow []) = Inr (None, Generator rp [] ow [])"
| "gen_next (Generator rp (ow' # os) ow []) =
     (case map_of rp ow' of
        None \<Rightarrow> Inl (KeyError ow')
      | Some rs \<Rightarrow> gen_next (Generator rp os ow' rs))"
  by pat_completeness auto
termination
  by (relation "measure owners_left") auto

text \<open>The number of loop steps a generator still has to make.\<close>
fun weight :: "generator \<Rightarrow> nat" where
  "weight (Generator rp os ow inner) =
     length inner +
     sum_list (map (\<lambda>k. Suc (case map_of rp k of None \<Rightarrow> 0 | Some rs \<Rightarrow> length rs)) os)"

text \<open>\<open>list(g)\<close>: every item up to StopIteration, and the generator left behind.\<close>
function drain :: "generator \<Rightarrow> py_error + ((string \<times> string) list \<times> generator)" where
  "drain g =
     (case gen_next g of
        Inl e \<Rightarrow> Inl e
      | Inr (None, g') \<Rightarrow> Inr ([], g')
      | Inr (Some x, g') \<Rightarrow>
          (case drain g' of
             Inl e \<Rightarrow> Inl e
           | Inr (xs, g'') \<Rightarrow> Inr (x # xs, g'')))"
  by pat_completeness auto
termination
proof -
  have less: "weight g' < weight g" if "gen_next g = Inr (Some x, g')" for g g' x
    using that by (induction g rule: gen_next.induct) (auto split: option.splits)
  show ?thesis
    by (relation "measure weight") (auto dest: less)
qed

text \<open>
  Generator objects live at addresses; \<open>next\<close> on one object replaces the frame stored at
  its address. A generator whose body raised is finished.
\<close>
type_synonym gen_heap = "nat \<rightharpoonup> generator"

definition finished :: generator where
  "finished = Generator [] [] [] []"

definition heap_next ::
  "nat \<Rightarrow> gen_heap \<Rightarrow> (py_error + (string \<times> string) option) \<times> gen_heap" where
  "heap_next a h =
     (case h a of
        None \<Rightarrow> (Inl (OtherError ''no generator at this address''), h)
      | Some g \<Rightarrow>
          (case gen_next g of
             Inl e \<Rightarrow> (Inl e, h(a \<mapsto> finished))
           | Inr (y, g') \<Rightarrow> (Inr y, h(a \<mapsto> g'))))"

definition heap_list ::
  "nat \<Rightarrow> gen_heap \<Rightarrow> (py_error + (string \<times> string) list) \<times> gen_heap" where
  "heap_list a h =
     (case h a of
        None \<Rightarrow> (Inl (OtherError ''no generator at this address''), h)
      | Some g \<Rightarrow>
          (case drain g of
             Inl e \<Rightarrow> (Inl e, h(a \<mapsto> finished))
           | Inr (xs, g') \<Rightarrow> (Inr xs, h(a \<mapsto> g'))))"

text \<open>The items of a mapping, flattened owner by owner.\<close>
definition owner_repository_pairs :: "(string \<times> string list) list \<Rightarrow> (string \<times> string) list" where
  "owner_repository_pairs rp = concat (map (\<lambda>(ow, rs). map (Pair ow) rs) rp)"

subsection \<open>The decorators\<close>

text \<open>The collection that the wrapper of \<open>restrict\<close> selects for its list type.\<close>
definition collection_for :: "settings \<Rightarrow> string \<Rightarrow> name_collection" where
  "collection_for cfg list_type =
     (if list_type = ''blacklist'' then blacklist cfg
      else if list_type = ''whitelist'' then whitelist cfg
      else NoneValue)"

text \<open>\<open>restrict(list_type)(func)(name, *args, **kwargs)\<close>.\<close>
definition restrict :: "settings \<Rightarrow> string \<Rightarrow> named_func \<Rightarrow> named_func" where
  "restrict cfg list_type func name args kw s =
     (let collection = collection_for cfg list_type
      in if name \<in> blocked s then (Inr PNone, s)
         else if truthy collection \<and> ((list_type = ''whitelist'') \<noteq> contains collection name)
         then (let modifier_word = (if list_type = ''whitelist'' then ''not'' else [])
               in (Inr PNone,
                   s\<lparr>logged := logged s @
                        [(INFO, ''User '' @ name @ '' '' @ modifier_word @ '' in '' @ list_type
                                @ '', blocking lookup'')],
                     blocked := insert name (blocked s)\<rparr>))
         else func name args kw s)"

text \<open>Reading an attribute that was never assigned raises.\<close>
definition getattr :: "string \<Rightarrow> 'a attr \<Rightarrow> py_error + 'a" where
  "getattr a v = (case v of Unset \<Rightarrow> Inl (AttributeError a) | Attr x \<Rightarrow> Inr x)"

definition str_or_none :: "string option \<Rightarrow> pyval" where
  "str_or_none v = (case v of None \<Rightarrow> PNone | Some x \<Rightarrow> PStr x)"

text \<open>
  \<open>with_credentials(service)(func)(*args, **kwargs)\<close>. For a service other than Jira the
  locals \<open>usr\<close> and \<open>pwd\<close> are read unassigned.
\<close>
definition with_credentials :: "settings \<Rightarrow> string \<Rightarrow> func \<Rightarrow> func" where
  "with_credentials cfg service func args kw s =
     (if service = ''Jira''
      then (case getattr ''jira_user'' (jira_user cfg) of
              Inl e \<Rightarrow> (Inl e, s)
            | Inr usr \<Rightarrow>
                (case getattr ''jira_pass'' (jira_pass cfg) of
                   Inl e \<Rightarrow> (Inl e, s)
                 | Inr pwd \<Rightarrow>
                     func args (kw(''_usr'' \<mapsto> str_or_none usr, ''_pwd'' \<mapsto> str_or_none pwd)) s))
      else (Inl (UnboundLocalError ''usr''), s))"

text \<open>\<open>with_token(service)(func)(*args, **kwargs)\<close>.\<close>
definition with_token :: "settings \<Rightarrow> string \<Rightarrow> func \<Rightarrow> func" where
  "with_token cfg service func args kw s =
     (let token = (if service = ''Github'' then github_token cfg else slack_token cfg)
      in func args (kw(''_token'' \<mapsto> str_or_none token)) s)"

text \<open>\<open>repositories(func)(organization, *args, **kwargs)\<close>.\<close>
definition repositories_decorator :: "settings \<Rightarrow> named_func \<Rightarrow> named_func" where
  "repositories_decorator cfg func organization args kw s =
     (case map_of (repositories cfg) organization of
        None \<Rightarrow> (Inl (KeyError organization), s)
      | Some rs \<Rightarrow> func organization args (kw(''_repositories'' \<mapsto> PList (map PStr rs))) s)"

text \<open>\<open>Configuration.map_users[name]\<close>: the YAML null is not subscriptable.\<close>
definition map_users_getitem :: "settings \<Rightarrow> string \<Rightarrow> py_error + string" where
  "map_users_getitem cfg name =
     (case map_users cfg of
        None \<Rightarrow> Inl (TypeError ''NoneType object is not subscriptable'')
      | Some m \<Rightarrow> (case map_of m name of None \<Rightarrow> Inl (KeyError name) | Some v \<Rightarrow> Inr v))"

text \<open>\<open>Configuration.map_users and name in Configuration.map_users\<close>.\<close>
definition in_map_users :: "settings \<Rightarrow> string \<Rightarrow> bool" where
  "in_map_users cfg name =
     (case map_users cfg of
        None \<Rightarrow> False
      | Some m \<Rightarrow> m \<noteq> [] \<and> map_of m name \<noteq> None)"

text \<open>\<open>manually_resolve(func)(name, *args, **kwargs)\<close>.\<close>
definition manually_resolve :: "settings \<Rightarrow> named_func \<Rightarrow> named_func" where
  "manually_resolve cfg func name args kw s =
     (if name \<in> mapped s
      then (case map_users_getitem cfg name of
              Inl e \<Rightarrow> (Inl e, s)
            | Inr v \<Rightarrow> func v args kw s)
      else if in_map_users cfg name
      then (case map_users_getitem cfg name of
              Inl e \<Rightarrow> (Inl e, s)
            | Inr mapped_name \<Rightarrow>
                func mapped_name args kw
                  (s\<lparr>logged := logged s @
                       [(INFO, name @ '' in manual mapping configuration, doing lookup on ''
                               @ mapped_name)],
                     mapped := insert name (mapped s)\<rparr>))
      else func name args kw s)"

subsection \<open>Runs of the process\<close>

text \<open>
  A top-level call of the run: a call of a function wrapped by \<open>restrict(list_type)\<close>, or
  of a function wrapped by \<open>manually_resolve\<close>. The wrapped function may itself be a
  wrapper.
\<close>
datatype call =
    Restricted string named_func string args kwargs
  | Resolved named_func string args kwargs

fun call_func :: "call \<Rightarrow> named_func" where
  "call_func (Restricted list_type func name args kw) = func"
| "call_func (Resolved func name args kw) = func"

fun perform :: "settings \<Rightarrow> call \<Rightarrow> state \<Rightarrow> outcome" where
  "perform cfg (Restricted list_type func name args kw) s = restrict cfg list_type func name args kw s"
| "perform cfg (Resolved func name args kw) s = manually_resolve cfg func name args kw s"

text \<open>The state after a sequence of calls; an exception of one call is caught by its caller.\<close>
fun run :: "settings \<Rightarrow> call list \<Rightarrow> state \<Rightarrow> state" where
  "run cfg [] s = s"
| "run cfg (c # cs) s = run cfg cs (snd (perform cfg c s))"

text \<open>The keys of \<open>Configuration.map_users\<close>.\<close>
definition user_keys :: "settings \<Rightarrow> string set" where
  "user_keys cfg = (case map_users cfg of None \<Rightarrow> {} | Some m \<Rightarrow> fst ` set m)"

text \<open>
  A wrapped function that writes the two sets only through the decorators: it removes
  no name from \<open>blocked\<close> or \<open>mapped\<close> and adds to \<open>mapped\<close> only keys of the manual
  mapping.
\<close>
definition keeps_sets :: "settings \<Rightarrow> named_func \<Rightarrow> bool" where
  "keeps_sets cfg func =
     (\<forall>name args kw s.
        blocked s \<subseteq> blocked (snd (func name args kw s)) \<and>
        mapped s \<subseteq> mapped (snd (func name args kw s)) \<and>
        (mapped s \<subseteq> user_keys cfg \<longrightarrow> mapped (snd (func name args kw s)) \<subseteq> user_keys cfg))"

subsection \<open>Example inputs\<close>

text \<open>A business function that records its call with the name it received.\<close>
definition lookup_user :: named_func where
  "lookup_user name args kw s =
     (Inr (PStr name), s\<lparr>logged := logged s @ [(DEBUG, ''lookup '' @ name)]\<rparr>)"

text \<open>A business function that returns the keyword arguments it received, by key.\<close>
definition show_kwargs :: func where
  "show_kwargs args kw s =
     (Inr (PList (map (\<lambda>k. case kw k of None \<Rightarrow> PNone | Some v \<Rightarrow> v)
                      [''_token'', ''_usr'', ''_pwd''])), s)"

definition example_document :: yaml_config where
  "example_document =
     \<lparr>cf_use_jira = Some True,
      cf_manually_resolve_users = Some (Some [(''jdoe'', ''john.doe'')]),
      cf_repositories = Some [(''octo'', [''nag'', ''cat'']), (''acme'', [''site''])],
      cf_whitelist = Some (Some [''alice'']),
      cf_blacklist = Some (Some [''eve'']),
      cf_ignore_no_assigned = Some False,
      cf_ignore_no_requested = Some False,
      cf_send_greeting = Some True,
      cf_default_email_domain = Some ''example.com''\<rparr>"

definition example_env :: env where
  "example_env = [''GITHUB_API_TOKEN'' \<mapsto> ''gh-token'', ''SLACK_API_TOKEN'' \<mapsto> ''slack-token'']"

text \<open>The object that \<open>__init__\<close> builds from the example document and environment.\<close>
definition example_settings :: settings where
  "example_settings =
     \<lparr>github_token = Some ''gh-token'',
      slack_token = Some ''slack-token'',
      jira_user = Attr None,
      jira_pass = Attr None,
      map_users = Some [(''jdoe'', ''john.doe'')],
      repositories = [(''octo'', [''nag'', ''cat'']), (''acme'', [''site''])],
      whitelist = NameSet {''alice''},
      blacklist = NameSet {''eve''},
      use_jira = True,
      ignore_assigned = False,
      ignore_requested = False,
      send_greeting = True,
      debug_uid = None,
      default_email_domain = ''example.com''\<rparr>"

section \<open>Properties\<close>

subsection \<open>Loading the configuration\<close>

lemma read_fields_Inr:
  assumes "read_fields configs environ uj ju jp = Inr cfg"
  shows "github_token cfg = environ ''GITHUB_API_TOKEN''"
    and "slack_token cfg = environ ''SLACK_API_TOKEN''"
    and "jira_user cfg = ju" and "jira_pass cfg = jp" and "use_jira cfg = uj"
    and "\<exists>wl. cf_whitelist configs = Some wl \<and> whitelist cfg = normalize_list wl"
    and "\<exists>bl. cf_blacklist configs = Some bl \<and> blacklist cfg = normalize_list bl"
  using assms
  by (auto simp: read_fields_def getitem_def split: option.splits)

lemma config_init_Inr:
  assumes "fst (config_init f environ) = Inr cfg"
  shows "\<exists>configs uj. f = Document configs \<and> cf_use_jira configs = Some uj \<and>
           environ ''SLACK_API_TOKEN'' \<noteq> None \<and> environ ''GITHUB_API_TOKEN'' \<noteq> None \<and>
           read_fields configs environ uj
             (if uj then Attr (environ ''JIRA_USER'') else Unset)
             (if uj then Attr (environ ''JIRA_PASS'') else Unset) = Inr cfg"
  using assms
  by (cases f)
     (auto simp: config_init_def get_config_from_file_def getitem_def Let_def
           split: option.splits if_splits)

text \<open>
  C1, as stated, fails: with \<open>use_jira: true\<close> in the document and neither JIRA_USER nor
  JIRA_PASS in the environment, \<open>__init__\<close> returns; the object it builds holds \<open>None\<close>
  for both credentials. Only the two tokens are checked.
\<close>

theorem config_init_jira_unchecked:
  "cf_use_jira example_document = Some True \<and>
   example_env ''JIRA_USER'' = None \<and> example_env ''JIRA_PASS'' = None \<and>
   config_init (Document example_document) example_env =
     (Inr example_settings,
      [(DEBUG, ''Attempting to read configuration file conf/config.yaml''),
       (DEBUG, ''Using JIRA credentials'')])"
  by (simp add: config_init_def get_config_from_file_def getitem_def read_fields_def
        example_document_def example_env_def example_settings_def config_path_def)

text \<open>
  C1, amended: whenever GITHUB_API_TOKEN or SLACK_API_TOKEN is missing from the
  environment, \<open>__init__\<close> raises and no settings object is built, whatever the file
  holds; when the file parses to a document with the key \<open>use_jira\<close>, what is raised is
  \<open>SystemExit(1)\<close> and the last logging call is the critical record about the tokens.
\<close>

theorem config_init_tokens_required:
  assumes "environ ''GITHUB_API_TOKEN'' = None \<or> environ ''SLACK_API_TOKEN'' = None"
  shows "(\<exists>e. fst (config_init f environ) = Inl e) \<and>
         (\<forall>configs uj. f = Document configs \<and> cf_use_jira configs = Some uj \<longrightarrow>
            fst (config_init f environ) = Inl (SystemExit 1) \<and>
            last (snd (config_init f environ)) =
              (CRITICAL, ''Slack or Github tokens not configured''))"
proof
  show "\<exists>e. fst (config_init f environ) = Inl e"
  proof (cases "fst (config_init f environ)")
    case (Inl e)
    then show ?thesis by blast
  next
    case (Inr cfg)
    from config_init_Inr [OF Inr] assms show ?thesis by auto
  qed
next
  from assms
  show "\<forall>configs uj. f = Document configs \<and> cf_use_jira configs = Some uj \<longrightarrow>
            fst (config_init f environ) = Inl (SystemExit 1) \<and>
            last (snd (config_init f environ)) =
              (CRITICAL, ''Slack or Github tokens not configured'')"
    by (auto simp: config_init_def get_config_from_file_def getitem_def Let_def)
qed

theorem config_init_tokens_required_witness:
  "(Map.empty :: env) ''GITHUB_API_TOKEN'' = None \<and>
   fst (config_init (Document example_document) Map.empty) = Inl (SystemExit 1) \<and>
   last (snd (config_init (Document example_document) Map.empty)) =
     (CRITICAL, ''Slack or Github tokens not configured'')"
proof -
  have h: "(Map.empty :: env) ''GITHUB_API_TOKEN'' = None \<or>
           (Map.empty :: env) ''SLACK_API_TOKEN'' = None"
    by simp
  have u: "cf_use_jira example_document = Some True"
    by (simp add: example_document_def)
  from config_init_tokens_required [OF h, of "Document example_document"] u
  show ?thesis by auto
qed

subsection \<open>The two sets only grow\<close>

lemma in_map_users_key: "in_map_users cfg name \<Longrightarrow> name \<in> user_keys cfg"
  by (auto simp: in_map_users_def user_keys_def map_of_eq_None_iff split: option.splits)

lemma restrict_keeps_sets:
  assumes "keeps_sets cfg func"
  shows "keeps_sets cfg (restrict cfg' list_type func)"
  using assms unfolding keeps_sets_def restrict_def Let_def
  by (auto simp: subset_insertI)

lemma manually_resolve_keeps_sets:
  assumes "keeps_sets cfg func"
  shows "keeps_sets cfg (manually_resolve cfg func)"
  unfolding keeps_sets_def
proof (intro allI)
  fix name args kw and s :: state
  from assms have f: "blocked t \<subseteq> blocked (snd (func n a k t))"
    "mapped t \<subseteq> mapped (snd (func n a k t))"
    "mapped t \<subseteq> user_keys cfg \<Longrightarrow> mapped (snd (func n a k t)) \<subseteq> user_keys cfg"
    for n a k and t :: state
    unfolding keeps_sets_def by blast+
  show "blocked s \<subseteq> blocked (snd (manually_resolve cfg func name args kw s)) \<and>
        mapped s \<subseteq> mapped (snd (manually_resolve cfg func name args kw s)) \<and>
        (mapped s \<subseteq> user_keys cfg \<longrightarrow>
         mapped (snd (manually_resolve cfg func name args kw s)) \<subseteq> user_keys cfg)"
  proof (cases "name \<in> mapped s")
    case True
    then show ?thesis
      using f by (auto simp: manually_resolve_def split: sum.splits)
  next
    case False
    show ?thesis
    proof (cases "in_map_users cfg name")
      case no: False
      with False show ?thesis using f by (auto simp: manually_resolve_def)
    next
      case yes: True
      show ?thesis
      proof (cases "map_users_getitem cfg name")
        case (Inl e)
        with False yes show ?thesis by (simp add: manually_resolve_def)
      next
        case (Inr v)
        let ?t = "s\<lparr>logged := logged s @
                [(INFO, name @ '' in manual mapping configuration, doing lookup on '' @ v)],
              mapped := insert name (mapped s)\<rparr>"
        have eq: "manually_resolve cfg func name args kw s = func v args kw ?t"
          using False yes Inr by (simp add: manually_resolve_def)
        have b: "blocked s \<subseteq> blocked (snd (func v args kw ?t))"
          using f(1) [of ?t v args kw] by simp
        have m: "mapped s \<subseteq> mapped (snd (func v args kw ?t))"
          using f(2) [of ?t v args kw] by auto
        have k: "mapped (snd (func v args kw ?t)) \<subseteq> user_keys cfg"
          if "mapped s \<subseteq> user_keys cfg"
          using f(3) [of ?t v args kw] that in_map_users_key [OF yes] by simp
        from b m k show ?thesis unfolding eq by blast
      qed
    qed
  qed
qed

lemma perform_keeps:
  assumes "keeps_sets cfg (call_func c)"
  shows "blocked s \<subseteq> blocked (snd (perform cfg c s))"
    and "mapped s \<subseteq> mapped (snd (perform cfg c s))"
    and "mapped s \<subseteq> user_keys cfg \<Longrightarrow> mapped (snd (perform cfg c s)) \<subseteq> user_keys cfg"
proof -
  have "blocked s \<subseteq> blocked (snd (perform cfg c s)) \<and>
        mapped s \<subseteq> mapped (snd (perform cfg c s)) \<and>
        (mapped s \<subseteq> user_keys cfg \<longrightarrow> mapped (snd (perform cfg c s)) \<subseteq> user_keys cfg)"
  proof (cases c)
    case (Restricted lt func name args kw)
    with assms have "keeps_sets cfg (restrict cfg lt func)"
      by (simp add: restrict_keeps_sets)
    then show ?thesis unfolding keeps_sets_def Restricted by simp
  next
    case (Resolved func name args kw)
    with assms have "keeps_sets cfg (manually_resolve cfg func)"
      by (simp add: manually_resolve_keeps_sets)
    then show ?thesis unfolding keeps_sets_def Resolved by simp
  qed
  then show "blocked s \<subseteq> blocked (snd (perform cfg c s))"
    and "mapped s \<subseteq> mapped (snd (perform cfg c s))"
    and "mapped s \<subseteq> user_keys cfg \<Longrightarrow> mapped (snd (perform cfg c s)) \<subseteq> user_keys cfg"
    by blast+
qed

lemma run_keeps:
  assumes "\<forall>c\<in>set cs. keeps_sets cfg (call_func c)"
  shows "blocked s \<subseteq> blocked (run cfg cs s)"
    and "mapped s \<subseteq> mapped (run cfg cs s)"
    and "mapped s \<subseteq> user_keys cfg \<Longrightarrow> mapped (run cfg cs s) \<subseteq> user_keys cfg"
  using assms
proof (induction cs arbitrary: s)
  case Nil
  {
    case 1 show ?case by simp
  next
    case 2 show ?case by simp
  next
    case 3 then show ?case by simp
  }
next
  case (Cons c cs)
  {
    case 1
    then have k: "keeps_sets cfg (call_func c)" and r: "\<forall>c\<in>set cs. keeps_sets cfg (call_func c)"
      by simp_all
    from perform_keeps(1) [OF k] Cons.IH(1) [OF r] show ?case
      by (metis run.simps(2) subset_trans)
  next
    case 2
    then have k: "keeps_sets cfg (call_func c)" and r: "\<forall>c\<in>set cs. keeps_sets cfg (call_func c)"
      by simp_all
    from perform_keeps(2) [OF k] Cons.IH(2) [OF r] show ?case
      by (metis run.simps(2) subset_trans)
  next
    case 3
    then have k: "keeps_sets cfg (call_func c)" and r: "\<forall>c\<in>set cs. keeps_sets cfg (call_func c)"
      by simp_all
    from perform_keeps(3) [OF k 3(1)] Cons.IH(3) [OF _ r] show ?case
      by simp
  }
qed

subsection \<open>Access filter\<close>

text \<open>
  C2: a name that is in \<open>blocked\<close> stays there through every later call of the run
  (the wrapped functions remove nothing from the set), and any later call for that name
  through \<open>restrict\<close>, whatever its list type and configuration, returns \<open>None\<close> and
  leaves the state as it is: the wrapped function is not called and nothing is logged.
\<close>

theorem restrict_blocked_sticky:
  assumes "n \<in> blocked s" and "\<forall>c\<in>set cs. keeps_sets cfg (call_func c)"
  shows "restrict cfg' list_type func n args kw (run cfg cs s) = (Inr PNone, run cfg cs s) \<and>
         blocked s \<subseteq> blocked (run cfg cs s)"
proof -
  from run_keeps(1) [OF assms(2)] have sub: "blocked s \<subseteq> blocked (run cfg cs s)" .
  with assms(1) have "n \<in> blocked (run cfg cs s)" by blast
  then have "restrict cfg' list_type func n args kw (run cfg cs s) = (Inr PNone, run cfg cs s)"
    by (simp add: restrict_def)
  with sub show ?thesis by simp
qed


theorem restrict_blocked_sticky_witness:
  "''bob'' \<in> blocked (snd (restrict example_settings ''whitelist'' lookup_user ''bob'' [] Map.empty
                              initial_state)) \<and>
   restrict example_settings ''none'' lookup_user ''bob'' [] Map.empty
     (run example_settings
        [Restricted ''blacklist'' lookup_user ''frank'' [] Map.empty,
         Resolved lookup_user ''jdoe'' [] Map.empty]
        (snd (restrict example_settings ''whitelist'' lookup_user ''bob'' [] Map.empty
                initial_state))) =
   (Inr PNone,
    \<lparr>blocked = {''bob''}, mapped = {''jdoe''},
     logged = [(INFO, ''User bob not in whitelist, blocking lookup''),
               (DEBUG, ''lookup frank''),
               (INFO, ''jdoe in manual mapping configuration, doing lookup on john.doe''),
               (DEBUG, ''lookup john.doe'')]\<rparr>)"
proof -
  let ?s1 = "snd (restrict example_settings ''whitelist'' lookup_user ''bob'' [] Map.empty
                    initial_state)"
  let ?cs = "[Restricted ''blacklist'' lookup_user ''frank'' [] Map.empty,
              Resolved lookup_user ''jdoe'' [] Map.empty]"
  have s1: "?s1 = \<lparr>blocked = {''bob''}, mapped = {},
                   logged = [(INFO, ''User bob not in whitelist, blocking lookup'')]\<rparr>"
    by (simp add: restrict_def collection_for_def example_settings_def initial_state_def)
  have h1: "''bob'' \<in> blocked ?s1"
    unfolding s1 by simp
  have h2: "\<forall>c\<in>set ?cs. keeps_sets example_settings (call_func c)"
    by (simp add: keeps_sets_def lookup_user_def)
  have r: "run example_settings ?cs ?s1 =
       \<lparr>blocked = {''bob''}, mapped = {''jdoe''},
        logged = [(INFO, ''User bob not in whitelist, blocking lookup''),
                  (DEBUG, ''lookup frank''),
                  (INFO, ''jdoe in manual mapping configuration, doing lookup on john.doe''),
                  (DEBUG, ''lookup john.doe'')]\<rparr>"
    unfolding s1
    by (simp add: restrict_def collection_for_def manually_resolve_def in_map_users_def
          map_users_getitem_def lookup_user_def example_settings_def)
  from restrict_blocked_sticky
         [where cfg' = example_settings and list_type = "''none''" and func = lookup_user
            and args = "[]" and kw = Map.empty, OF h1 h2]
  show ?thesis using h1 r by simp
qed

text \<open>
  C3: for a name that is not in \<open>blocked\<close>, when the list type is \<open>'whitelist'\<close> and the
  configured whitelist is a non-empty set, or the list type is \<open>'blacklist'\<close> and the
  configured blacklist is a non-empty set, the call is blocked exactly when
  \<open>list_type == 'whitelist'\<close> differs from the name being in that set; a blocked call
  logs one info record, adds the name to \<open>blocked\<close> and returns \<open>None\<close>; any other
  call is the call of the wrapped function with the original arguments.
\<close>

theorem restrict_blocks_iff:
  assumes "name \<notin> blocked s"
      and "(list_type = ''whitelist'' \<and> whitelist cfg = NameSet S) \<or>
           (list_type = ''blacklist'' \<and> blacklist cfg = NameSet S)"
      and "S \<noteq> {}"
  shows "restrict cfg list_type func name args kw s =
           (if (list_type = ''whitelist'') \<noteq> (name \<in> S)
            then (Inr PNone,
                  s\<lparr>logged := logged s @
                       [(INFO, ''User '' @ name @ '' '' @
                               (if list_type = ''whitelist'' then ''not'' else []) @
                               '' in '' @ list_type @ '', blocking lookup'')],
                    blocked := insert name (blocked s)\<rparr>)
            else func name args kw s)"
proof -
  from assms(2) have "collection_for cfg list_type = NameSet S"
    by (auto simp: collection_for_def)
  with assms(1,3) show ?thesis
    by (simp add: restrict_def Let_def)
qed

theorem restrict_blocks_iff_witness:
  "whitelist example_settings = NameSet {''alice''} \<and>
   blacklist example_settings = NameSet {''eve''} \<and>
   restrict example_settings ''whitelist'' lookup_user ''bob'' [] Map.empty initial_state =
     (Inr PNone,
      \<lparr>blocked = {''bob''}, mapped = {},
       logged = [(INFO, ''User bob not in whitelist, blocking lookup'')]\<rparr>) \<and>
   restrict example_settings ''whitelist'' lookup_user ''alice'' [] Map.empty initial_state =
     lookup_user ''alice'' [] Map.empty initial_state \<and>
   restrict example_settings ''blacklist'' lookup_user ''eve'' [] Map.empty initial_state =
     (Inr PNone,
      \<lparr>blocked = {''eve''}, mapped = {},
       logged = [(INFO, ''User eve  in blacklist, blocking lookup'')]\<rparr>) \<and>
   restrict example_settings ''blacklist'' lookup_user ''frank'' [] Map.empty initial_state =
     lookup_user ''frank'' [] Map.empty initial_state"
proof -
  have b: "n \<notin> blocked initial_state" for n
    by (simp add: initial_state_def)
  have w: "whitelist example_settings = NameSet {''alice''}"
    by (simp add: example_settings_def)
  have k: "blacklist example_settings = NameSet {''eve''}"
    by (simp add: example_settings_def)
  have cw: "(''whitelist'' = ''whitelist'' \<and> whitelist example_settings = NameSet {''alice''}) \<or>
            (''whitelist'' = ''blacklist'' \<and> blacklist example_settings = NameSet {''alice''})"
    using w by simp
  have cb: "(''blacklist'' = ''whitelist'' \<and> whitelist example_settings = NameSet {''eve''}) \<or>
            (''blacklist'' = ''blacklist'' \<and> blacklist example_settings = NameSet {''eve''})"
    using k by simp
  have nw: "{''alice''} \<noteq> ({} :: string set)" and nb: "{''eve''} \<noteq> ({} :: string set)"
    by simp_all
  from restrict_blocks_iff
         [where name = "''bob''" and func = lookup_user and args = "[]" and kw = Map.empty,
          OF b cw nw]
       restrict_blocks_iff
         [where name = "''alice''" and func = lookup_user and args = "[]" and kw = Map.empty,
          OF b cw nw]
       restrict_blocks_iff
         [where name = "''eve''" and func = lookup_user and args = "[]" and kw = Map.empty,
          OF b cb nb]
       restrict_blocks_iff
         [where name = "''frank''" and func = lookup_user and args = "[]" and kw = Map.empty,
          OF b cb nb]
  show ?thesis using w k by (simp add: initial_state_def)
qed

lemma restrict_falsy_pass:
  assumes "\<not> truthy (collection_for cfg list_type)" and "name \<notin> blocked s"
  shows "restrict cfg list_type func name args kw s = func name args kw s"
  using assms by (simp add: restrict_def Let_def)

text \<open>
  C6: when the document gives null or the empty list for both \<open>whitelist\<close> and
  \<open>blacklist\<close>, every call through \<open>restrict\<close> for a name that is not in \<open>blocked\<close>
  is the call of the wrapped function, on the same arguments and state.
\<close>

theorem restrict_absent_lists_pass:
  assumes "fst (config_init (Document configs) environ) = Inr cfg"
      and "cf_whitelist configs = Some None \<or> cf_whitelist configs = Some (Some [])"
      and "cf_blacklist configs = Some None \<or> cf_blacklist configs = Some (Some [])"
      and "name \<notin> blocked s"
  shows "restrict cfg list_type func name args kw s = func name args kw s"
proof -
  from config_init_Inr [OF assms(1)] obtain uj ju jp
    where rf: "read_fields configs environ uj ju jp = Inr cfg"
    by auto
  from read_fields_Inr(6) [OF rf] assms(2) have w: "\<not> truthy (whitelist cfg)"
    by auto
  from read_fields_Inr(7) [OF rf] assms(3) have b: "\<not> truthy (blacklist cfg)"
    by auto
  from w b have "\<not> truthy (collection_for cfg list_type)"
    by (simp add: collection_for_def)
  from restrict_falsy_pass [OF this assms(4)] show ?thesis .
qed

theorem restrict_absent_lists_pass_witness:
  "fst (config_init
         (Document (example_document\<lparr>cf_whitelist := Some None, cf_blacklist := Some (Some [])\<rparr>))
         example_env) =
     Inr (example_settings\<lparr>whitelist := NoneValue, blacklist := EmptyList\<rparr>) \<and>
   restrict (example_settings\<lparr>whitelist := NoneValue, blacklist := EmptyList\<rparr>)
      ''whitelist'' lookup_user ''bob'' [] Map.empty initial_state =
     (Inr (PStr ''bob''),
      \<lparr>blocked = {}, mapped = {}, logged = [(DEBUG, ''lookup bob'')]\<rparr>)"
proof -
  let ?d = "example_document\<lparr>cf_whitelist := Some None, cf_blacklist := Some (Some [])\<rparr>"
  let ?c = "example_settings\<lparr>whitelist := NoneValue, blacklist := EmptyList\<rparr>"
  have l: "fst (config_init (Document ?d) example_env) = Inr ?c"
    by (simp add: config_init_def get_config_from_file_def getitem_def read_fields_def
          example_document_def example_env_def example_settings_def)
  have w: "cf_whitelist ?d = Some None \<or> cf_whitelist ?d = Some (Some [])"
    by simp
  have b: "cf_blacklist ?d = Some None \<or> cf_blacklist ?d = Some (Some [])"
    by simp
  have n: "''bob'' \<notin> blocked initial_state"
    by (simp add: initial_state_def)
  from restrict_absent_lists_pass
         [where list_type = "''whitelist''" and func = lookup_user and args = "[]"
            and kw = Map.empty, OF l w b n] l
  show ?thesis by (simp add: lookup_user_def initial_state_def)
qed

subsection \<open>Identity resolver\<close>

lemma user_key_getitem:
  assumes "name \<in> user_keys cfg"
  shows "\<exists>v. map_users_getitem cfg name = Inr v"
proof (cases "map_users cfg")
  case None
  with assms show ?thesis by (simp add: user_keys_def)
next
  case (Some m)
  with assms have "map_of m name \<noteq> None"
    by (simp add: user_keys_def map_of_eq_None_iff)
  with Some show ?thesis
    by (auto simp: map_users_getitem_def)
qed




text \<open>
  C10: in every state that a run reaches from the initial state under one configuration,
  \<open>mapped\<close> holds only keys of the manual mapping, so for a name in \<open>mapped\<close> the
  lookup \<open>map_users[name]\<close> of the sticky path finds a value and the wrapped function is
  called with it.
\<close>

theorem mapped_within_keys:
  assumes "\<forall>c\<in>set cs. keeps_sets cfg (call_func c)"
  shows "mapped (run cfg cs initial_state) \<subseteq> user_keys cfg \<and>
         (name \<in> mapped (run cfg cs initial_state) \<longrightarrow>
            (\<exists>v. map_users_getitem cfg name = Inr v \<and>
                 manually_resolve cfg func name args kw (run cfg cs initial_state) =
                   func v args kw (run cfg cs initial_state)))"
proof -
  have "mapped initial_state \<subseteq> user_keys cfg"
    by (simp add: initial_state_def)
  from run_keeps(3) [OF assms this]
  have sub: "mapped (run cfg cs initial_state) \<subseteq> user_keys cfg" .
  have "\<exists>v. map_users_getitem cfg name = Inr v \<and>
                 manually_resolve cfg func name args kw (run cfg cs initial_state) =
                   func v args kw (run cfg cs initial_state)"
    if m: "name \<in> mapped (run cfg cs initial_state)"
  proof -
    from m sub have "name \<in> user_keys cfg" by blast
    from user_key_getitem [OF this] obtain v where v: "map_users_getitem cfg name = Inr v"
      by blast
    with m show ?thesis by (simp add: manually_resolve_def)
  qed
  with sub show ?thesis by blast
qed

theorem mapped_within_keys_witness:
  "mapped (run example_settings
             [Resolved lookup_user ''jdoe'' [] Map.empty,
              Resolved lookup_user ''asmith'' [] Map.empty] initial_state) = {''jdoe''} \<and>
   user_keys example_settings = {''jdoe''} \<and>
   map_users_getitem example_settings ''jdoe'' = Inr ''john.doe'' \<and>
   fst (manually_resolve example_settings lookup_user ''jdoe'' [] Map.empty
         (run example_settings
             [Resolved lookup_user ''jdoe'' [] Map.empty,
              Resolved lookup_user ''asmith'' [] Map.empty] initial_state)) =
     Inr (PStr ''john.doe'')"
proof -
  let ?cs = "[Resolved lookup_user ''jdoe'' [] Map.empty,
              Resolved lookup_user ''asmith'' [] Map.empty]"
  have h: "\<forall>c\<in>set ?cs. keeps_sets example_settings (call_func c)"
    by (simp add: keeps_sets_def lookup_user_def)
  have r: "run example_settings ?cs initial_state =
        \<lparr>blocked = {}, mapped = {''jdoe''},
         logged = [(INFO, ''jdoe in manual mapping configuration, doing lookup on john.doe''),
                   (DEBUG, ''lookup john.doe''), (DEBUG, ''lookup asmith'')]\<rparr>"
    by (simp add: manually_resolve_def in_map_users_def map_users_getitem_def lookup_user_def
          example_settings_def initial_state_def)
  have k: "user_keys example_settings = {''jdoe''}"
    by (simp add: user_keys_def example_settings_def)
  have g: "map_users_getitem example_settings ''jdoe'' = Inr ''john.doe''"
    by (simp add: map_users_getitem_def example_settings_def)
  from mapped_within_keys
         [where name = "''jdoe''" and func = lookup_user and args = "[]" and kw = Map.empty,
          OF h]
  show ?thesis
    unfolding r using k g by (auto simp: lookup_user_def)
qed

subsection \<open>Credential injection\<close>

text \<open>
  C5, as stated, fails: \<open>__init__\<close> assigns \<open>jira_user\<close> and \<open>jira_pass\<close> only when
  \<open>use_jira\<close> is true, so on a configuration loaded with \<open>use_jira: false\<close> the wrapper
  of \<open>with_credentials('Jira')\<close> raises AttributeError and the wrapped function is not
  called.
\<close>

theorem with_credentials_unset_attribute:
  "fst (config_init (Document (example_document\<lparr>cf_use_jira := Some False\<rparr>)) example_env) =
     Inr (example_settings\<lparr>jira_user := Unset, jira_pass := Unset, use_jira := False\<rparr>) \<and>
   with_credentials (example_settings\<lparr>jira_user := Unset, jira_pass := Unset, use_jira := False\<rparr>)
       ''Jira'' show_kwargs [] Map.empty initial_state =
     (Inl (AttributeError ''jira_user''), initial_state)"
  by (simp add: config_init_def get_config_from_file_def getitem_def read_fields_def
        example_document_def example_env_def example_settings_def with_credentials_def
        getattr_def)

text \<open>For a service other than Jira the wrapper reads its unassigned locals.\<close>

lemma with_credentials_other_service:
  assumes "service \<noteq> ''Jira''"
  shows "with_credentials cfg service func args kw s = (Inl (UnboundLocalError ''usr''), s)"
  using assms by (simp add: with_credentials_def)

text \<open>
  C5, amended: the wrapper of \<open>with_token(service)\<close>, for every service, configuration,
  call and state, calls the wrapped function with the positional arguments as they are
  and the keyword arguments extended by the token; the wrapper of
  \<open>with_credentials('Jira')\<close> does so, with the two credentials as the environment gave
  them, on every configuration that was loaded with \<open>use_jira\<close> true.
\<close>

theorem injectors_complete:
  "with_token cfg service func args kw s =
     func args
       (kw(''_token'' \<mapsto>
             str_or_none (if service = ''Github'' then github_token cfg else slack_token cfg)))
       s \<and>
   (fst (config_init f environ) = Inr cfg \<and> use_jira cfg \<longrightarrow>
      with_credentials cfg ''Jira'' func args kw s =
        func args
          (kw(''_usr'' \<mapsto> str_or_none (environ ''JIRA_USER''),
              ''_pwd'' \<mapsto> str_or_none (environ ''JIRA_PASS'')))
          s)"
proof (intro conjI impI)
  show "with_token cfg service func args kw s =
     func args
       (kw(''_token'' \<mapsto>
             str_or_none (if service = ''Github'' then github_token cfg else slack_token cfg)))
       s"
    by (simp add: with_token_def)
next
  assume a: "fst (config_init f environ) = Inr cfg \<and> use_jira cfg"
  then have l: "fst (config_init f environ) = Inr cfg" and u: "use_jira cfg"
    by simp_all
  from config_init_Inr [OF l] obtain configs uj
    where rf: "read_fields configs environ uj
                 (if uj then Attr (environ ''JIRA_USER'') else Unset)
                 (if uj then Attr (environ ''JIRA_PASS'') else Unset) = Inr cfg"
    by blast
  from read_fields_Inr(5) [OF rf] u have uj by simp
  with read_fields_Inr(3,4) [OF rf]
  have "jira_user cfg = Attr (environ ''JIRA_USER'')" "jira_pass cfg = Attr (environ ''JIRA_PASS'')"
    by simp_all
  then show "with_credentials cfg ''Jira'' func args kw s =
        func args
          (kw(''_usr'' \<mapsto> str_or_none (environ ''JIRA_USER''),
              ''_pwd'' \<mapsto> str_or_none (environ ''JIRA_PASS'')))
          s"
    by (simp add: with_credentials_def getattr_def)
qed

theorem injectors_complete_witness:
  "fst (config_init (Document example_document) example_env) = Inr example_settings \<and>
   use_jira example_settings \<and>
   with_token example_settings ''Slack'' show_kwargs [] Map.empty initial_state =
     (Inr (PList [PStr ''slack-token'', PNone, PNone]), initial_state) \<and>
   with_credentials example_settings ''Jira'' show_kwargs [] Map.empty initial_state =
     (Inr (PList [PNone, PNone, PNone]), initial_state) \<and>
   with_token (example_settings\<lparr>jira_user := Unset, jira_pass := Unset, use_jira := False\<rparr>)
       ''Github'' show_kwargs [] Map.empty initial_state =
     (Inr (PList [PStr ''gh-token'', PNone, PNone]), initial_state)"
proof -
  have l: "fst (config_init (Document example_document) example_env) = Inr example_settings"
    by (simp add: config_init_def get_config_from_file_def getitem_def read_fields_def
          example_document_def example_env_def example_settings_def)
  have u: "use_jira example_settings"
    by (simp add: example_settings_def)
  from injectors_complete
         [where cfg = example_settings and service = "''Slack''" and func = show_kwargs
            and args = "[]" and kw = Map.empty and s = initial_state
            and f = "Document example_document" and environ = example_env]
       injectors_complete
         [where cfg = "example_settings\<lparr>jira_user := Unset, jira_pass := Unset, use_jira := False\<rparr>"
            and service = "''Github''" and func = show_kwargs
            and args = "[]" and kw = Map.empty and s = initial_state
            and f = "Document example_document" and environ = example_env]
  show ?thesis
    using l u
    by (simp add: show_kwargs_def str_or_none_def example_settings_def example_env_def)
qed

text \<open>
  C7: on a loaded configuration both tokens are strings, and every call through
  \<open>with_token(service)\<close>, from any state, is the call of the wrapped function on the same
  positional arguments and state, with \<open>_token\<close> set to the Github token when the service
  is \<open>'Github'\<close> and to the Slack token otherwise; the injected value does not depend on
  the call or on the state, so successive calls inject the same value.
\<close>

theorem with_token_injects:
  assumes "fst (config_init f environ) = Inr cfg"
  shows "\<exists>gh sl. environ ''GITHUB_API_TOKEN'' = Some gh \<and> environ ''SLACK_API_TOKEN'' = Some sl \<and>
           github_token cfg = Some gh \<and> slack_token cfg = Some sl \<and>
           (\<forall>service func args kw s.
              with_token cfg service func args kw s =
                func args (kw(''_token'' \<mapsto> PStr (if service = ''Github'' then gh else sl))) s)"
proof -
  from config_init_Inr [OF assms] obtain configs uj ju jp
    where tok: "environ ''SLACK_API_TOKEN'' \<noteq> None" "environ ''GITHUB_API_TOKEN'' \<noteq> None"
      and rf: "read_fields configs environ uj ju jp = Inr cfg"
    by blast
  from tok obtain gh sl
    where e: "environ ''GITHUB_API_TOKEN'' = Some gh" "environ ''SLACK_API_TOKEN'' = Some sl"
    by auto
  with read_fields_Inr(1,2) [OF rf]
  have c: "github_token cfg = Some gh" "slack_token cfg = Some sl"
    by simp_all
  have "with_token cfg service func args kw s =
          func args (kw(''_token'' \<mapsto> PStr (if service = ''Github'' then gh else sl))) s"
    for service func args kw s
    using c by (simp add: with_token_def str_or_none_def)
  with e c show ?thesis by blast
qed

theorem with_token_injects_witness:
  "fst (config_init (Document example_document) example_env) = Inr example_settings \<and>
   with_token example_settings ''Github'' show_kwargs [PStr ''octo''] Map.empty initial_state =
     (Inr (PList [PStr ''gh-token'', PNone, PNone]), initial_state) \<and>
   with_token example_settings ''Github'' show_kwargs [PStr ''octo''] Map.empty
     (snd (with_token example_settings ''Github'' show_kwargs [PStr ''octo''] Map.empty
             initial_state)) =
     (Inr (PList [PStr ''gh-token'', PNone, PNone]), initial_state)"
proof -
  have l: "fst (config_init (Document example_document) example_env) = Inr example_settings"
    by (simp add: config_init_def get_config_from_file_def getitem_def read_fields_def
          example_document_def example_env_def example_settings_def)
  from with_token_injects [OF l] obtain gh sl
    where e: "example_env ''GITHUB_API_TOKEN'' = Some gh"
      and w: "\<And>service func args kw s.
              with_token example_settings service func args kw s =
                func args (kw(''_token'' \<mapsto> PStr (if service = ''Github'' then gh else sl))) s"
    by blast
  from e have gh: "gh = ''gh-token''"
    by (simp add: example_env_def)
  show ?thesis
    using l by (simp add: w gh show_kwargs_def)
qed

subsection \<open>Repositories of an organization\<close>

text \<open>
  C9: when the organization is a key of the configured repositories, the wrapper of
  \<open>repositories\<close> calls the wrapped function with the organization and positional
  arguments as they are and \<open>_repositories\<close> set to the list configured for it; when it
  is not a key, the wrapper raises KeyError and does not call the wrapped function.
\<close>

theorem repositories_decorator_lookup:
  assumes "distinct (map fst (repositories cfg))"
  shows "((organization, rs) \<in> set (repositories cfg) \<longrightarrow>
            repositories_decorator cfg func organization args kw s =
              func organization args (kw(''_repositories'' \<mapsto> PList (map PStr rs))) s) \<and>
         (organization \<notin> fst ` set (repositories cfg) \<longrightarrow>
            repositories_decorator cfg func organization args kw s =
              (Inl (KeyError organization), s))"
proof (intro conjI impI)
  assume "(organization, rs) \<in> set (repositories cfg)"
  with assms have "map_of (repositories cfg) organization = Some rs"
    by simp
  then show "repositories_decorator cfg func organization args kw s =
              func organization args (kw(''_repositories'' \<mapsto> PList (map PStr rs))) s"
    by (simp add: repositories_decorator_def)
next
  assume "organization \<notin> fst ` set (repositories cfg)"
  then have "map_of (repositories cfg) organization = None"
    by (simp add: map_of_eq_None_iff)
  then show "repositories_decorator cfg func organization args kw s =
              (Inl (KeyError organization), s)"
    by (simp add: repositories_decorator_def)
qed

theorem repositories_decorator_lookup_witness:
  "distinct (map fst (repositories example_settings)) \<and>
   repositories_decorator example_settings lookup_user ''octo'' [] Map.empty initial_state =
     lookup_user ''octo'' [] [''_repositories'' \<mapsto> PList [PStr ''nag'', PStr ''cat'']]
       initial_state \<and>
   repositories_decorator example_settings lookup_user ''nobody'' [] Map.empty initial_state =
     (Inl (KeyError ''nobody''), initial_state)"
proof -
  have d: "distinct (map fst (repositories example_settings))"
    by (simp add: example_settings_def)
  have i: "(''octo'', [''nag'', ''cat'']) \<in> set (repositories example_settings)"
    by (simp add: example_settings_def)
  have n: "''nobody'' \<notin> fst ` set (repositories example_settings)"
    by (simp add: example_settings_def)
  from repositories_decorator_lookup
         [where organization = "''octo''" and rs = "[''nag'', ''cat'']" and func = lookup_user
            and args = "[]" and kw = Map.empty and s = initial_state, OF d]
       repositories_decorator_lookup
         [where organization = "''nobody''" and func = lookup_user
            and args = "[]" and kw = Map.empty and s = initial_state, OF d]
  show ?thesis
    using d i n by simp
qed

subsection \<open>Enumerating the repositories\<close>

lemma drain_inner:
  "drain (Generator rp os ow (r # rs)) =
     (case drain (Generator rp os ow rs) of
        Inl e \<Rightarrow> Inl e
      | Inr (xs, g) \<Rightarrow> Inr ((ow, r) # xs, g))"
  by (subst drain.simps) simp

lemma drain_done: "drain (Generator rp [] ow []) = Inr ([], Generator rp [] ow [])"
  by (subst drain.simps) simp

lemma drain_outer:
  assumes "map_of rp ow' = Some rs"
  shows "drain (Generator rp (ow' # os) ow []) = drain (Generator rp os ow' rs)"
  using assms
  by (simp add: drain.simps [of "Generator rp (ow' # os) ow []"]
        drain.simps [of "Generator rp os ow' rs"])

text \<open>The items that a generator in the middle of its loops still yields.\<close>
lemma drain_items:
  assumes "\<forall>k\<in>set os. map_of rp k \<noteq> None"
  shows "\<exists>g'. drain (Generator rp os ow inner) =
              Inr (map (Pair ow) inner @
                   concat (map (\<lambda>k. map (Pair k) (the (map_of rp k))) os), g') \<and>
              gen_next g' = Inr (None, g')"
  using assms
proof (induction os arbitrary: ow inner)
  case Nil
  show ?case
    by (induction inner) (auto simp: drain_done drain_inner)
next
  case (Cons k ks)
  then obtain rs where rs: "map_of rp k = Some rs"
    by auto
  from Cons have ks: "\<forall>k\<in>set ks. map_of rp k \<noteq> None"
    by simp
  show ?case
  proof (induction inner)
    case Nil
    from Cons.IH [OF ks, of k rs] rs show ?case
      by (auto simp: drain_outer)
  next
    case (Cons r inner)
    then show ?case
      by (auto simp: drain_inner)
  qed
qed

lemma keys_lookup_items:
  assumes "distinct (map fst rp)"
  shows "concat (map (\<lambda>k. map (Pair k) (the (map_of rp k))) (map fst rp)) =
         owner_repository_pairs rp"
proof -
  have e: "map_of rp (fst x) = Some (snd x)" if "x \<in> set rp" for x
    using map_of_is_SomeI [OF assms, of "fst x" "snd x"] that by simp
  have "map (\<lambda>k. map (Pair k) (the (map_of rp k))) (map fst rp) =
        map (\<lambda>(ow, rs). map (Pair ow) rs) rp"
    by (simp add: e split_beta)
  then show ?thesis
    by (simp only: owner_repository_pairs_def)
qed

lemma drain_fresh:
  assumes "distinct (map fst rp)"
  shows "\<exists>g'. drain (Generator rp (map fst rp) [] []) = Inr (owner_repository_pairs rp, g') \<and>
              gen_next g' = Inr (None, g')"
proof -
  have "\<forall>k\<in>set (map fst rp). map_of rp k \<noteq> None"
    by (auto simp: map_of_eq_None_iff)
  from drain_items [OF this, of "[]" "[]"] keys_lookup_items [OF assms]
  show ?thesis by simp
qed

text \<open>
  C8: for two generator objects made by \<open>repository_generator\<close> over the same mapping
  (the one given, or the configured repositories when none is given), listing the first
  gives every (owner, repository) pair of the mapping, owner by owner in the order of the
  mapping, and then the generator is exhausted; a step or a listing of the first leaves
  the second as it was, and listing the second afterwards gives the same full sequence.
\<close>

theorem repository_generator_restartable:
  assumes "rp = (case repos of None \<Rightarrow> repositories cfg | Some r \<Rightarrow> r)"
      and "distinct (map fst rp)"
      and "a \<noteq> b"
      and "h a = Some (repository_generator cfg repos)"
      and "h b = Some (repository_generator cfg repos)"
  shows "fst (heap_list a h) = Inr (owner_repository_pairs rp) \<and>
         snd (heap_list a h) b = h b \<and>
         snd (heap_next a h) b = h b \<and>
         fst (heap_list b (snd (heap_list a h))) = Inr (owner_repository_pairs rp) \<and>
         fst (heap_next a (snd (heap_list a h))) = Inr None"
proof -
  have fresh: "repository_generator cfg repos = Generator rp (map fst rp) [] []"
    using assms(1) by (simp add: repository_generator_def Let_def)
  from drain_fresh [OF assms(2)] obtain g'
    where d: "drain (Generator rp (map fst rp) [] []) = Inr (owner_repository_pairs rp, g')"
      and stop: "gen_next g' = Inr (None, g')"
    by blast
  have la: "heap_list a h = (Inr (owner_repository_pairs rp), h(a \<mapsto> g'))"
    using assms(4) fresh d by (simp add: heap_list_def)
  have lb: "heap_list b (h(a \<mapsto> g')) = (Inr (owner_repository_pairs rp), h(a \<mapsto> g', b \<mapsto> g'))"
    using assms(3,5) fresh d by (simp add: heap_list_def)
  have nb: "snd (heap_next a h) b = h b"
    using assms(3) by (auto simp: heap_next_def split: option.splits sum.splits)
  have na: "fst (heap_next a (h(a \<mapsto> g'))) = Inr None"
    using stop by (simp add: heap_next_def)
  from la lb nb na assms(3) show ?thesis
    by simp
qed

theorem repository_generator_restartable_witness:
  "distinct (map fst (repositories example_settings)) \<and>
   fst (heap_list 0 [0 \<mapsto> repository_generator example_settings None,
                     1 \<mapsto> repository_generator example_settings None]) =
     Inr [(''octo'', ''nag''), (''octo'', ''cat''), (''acme'', ''site'')] \<and>
   fst (heap_list 1 (snd (heap_list 0 [0 \<mapsto> repository_generator example_settings None,
                                       1 \<mapsto> repository_generator example_settings None]))) =
     Inr [(''octo'', ''nag''), (''octo'', ''cat''), (''acme'', ''site'')]"
proof -
  let ?h = "[0 \<mapsto> repository_generator example_settings None,
             1 \<mapsto> repository_generator example_settings None] :: gen_heap"
  have r: "repositories example_settings =
             (case None of None \<Rightarrow> repositories example_settings | Some r \<Rightarrow> r)"
    by simp
  have d: "distinct (map fst (repositories example_settings))"
    by (simp add: example_settings_def)
  have ne: "(0::nat) \<noteq> 1"
    by simp
  have a: "?h 0 = Some (repository_generator example_settings None)"
    by simp
  have b: "?h 1 = Some (repository_generator example_settings None)"
    by simp
  have p: "owner_repository_pairs (repositories example_settings) =
             [(''octo'', ''nag''), (''octo'', ''cat''), (''acme'', ''site'')]"
    by (simp add: owner_repository_pairs_def example_settings_def)
  from repository_generator_restartable [OF r d ne a b]
  show ?thesis
    using d unfolding p by blast
qed

end
